theory Spec2Isabelle
  imports Main "HOL-Library.Char_ord" "HOL-Library.List_Lexorder"
begin

section \<open>JavaScript objects used as dictionaries\<close>

text \<open>
  \<^verbatim>\<open>this.sources\<close> and the identifier-to-model mappings are plain JavaScript objects.
  An object is modelled by the list of its own properties in insertion order. A string is
  the list of its code units, each a \<open>char\<close>, and strings are compared code unit by code
  unit, as the default \<^verbatim>\<open>sort\<close> of JavaScript does. The functions below work on own
  properties. An assignment to the key \<^verbatim>\<open>__proto__\<close> is not an ordinary store: see \<open>add\<close>.
  A lookup is modelled for own keys; a key that is not an own key but names an inherited member
  is not given a value here.
\<close>

type_synonym 'v jsobj = "(string \<times> 'v) list"

text \<open>\<^verbatim>\<open>o[k]\<close>: the value of the property, \<open>None\<close> for \<^verbatim>\<open>undefined\<close>.\<close>

fun js_get :: "'v jsobj \<Rightarrow> string \<Rightarrow> 'v option" where
  "js_get [] k = None"
| "js_get ((k', v) # ps) k = (if k' = k then Some v else js_get ps k)"

text \<open>\<^verbatim>\<open>o[k] = v\<close>: an existing property keeps its place, a new one goes last.\<close>

fun js_set :: "'v jsobj \<Rightarrow> string \<Rightarrow> 'v \<Rightarrow> 'v jsobj" where
  "js_set [] k v = [(k, v)]"
| "js_set ((k', v') # ps) k v = (if k' = k then (k, v) # ps else (k', v') # js_set ps k v)"

text \<open>\<^verbatim>\<open>delete o[k]\<close>.\<close>

fun js_delete :: "'v jsobj \<Rightarrow> string \<Rightarrow> 'v jsobj" where
  "js_delete [] k = []"
| "js_delete ((k', v') # ps) k = (if k' = k then js_delete ps k else (k', v') # js_delete ps k)"

text \<open>
  \<^verbatim>\<open>Object.keys(o)\<close> lists the array-index keys first (canonical decimal numerals below
  \<open>2^32 - 1 = 4294967295\<close>, in ascending numeric order), then the other keys in insertion order.
\<close>

definition is_digit :: "char \<Rightarrow> bool" where
  "is_digit c = (CHR ''0'' \<le> c \<and> c \<le> CHR ''9'')"

definition digits_val :: "string \<Rightarrow> int" where
  "digits_val s = foldl (\<lambda>a c. 10 * a + (of_char c - 48)) 0 s"

definition is_array_index :: "string \<Rightarrow> bool" where
  "is_array_index s =
     (s \<noteq> [] \<and> list_all is_digit s \<and> (hd s \<noteq> CHR ''0'' \<or> s = ''0'') \<and>
      digits_val s < 4294967295)"

definition js_keys :: "'v jsobj \<Rightarrow> string list" where
  "js_keys obj =
     sort_key digits_val (filter is_array_index (map fst obj)) @
     filter (\<lambda>k. \<not> is_array_index k) (map fst obj)"

section \<open>Selection providers and the world the manager runs in\<close>

type_synonym ref = nat

datatype call =
    Highlight string
  | RemoveSkeletons "string list"
  | SetVisible "string list" bool

text \<open>
  Modelled from the spec: the selection providers (skeleton sources) are implemented outside
  the manager; only their capability contract is known. A provider object has a name, an
  optional \<^verbatim>\<open>linkTarget\<close> (a reference to another provider), its selection as a mapping from
  skeleton identifier to model, the optional \<^verbatim>\<open>setVisible\<close> method (present or not), and,
  so that calls made by the manager can be observed, the list of calls it has received.
  Skeleton identifiers are written as the property keys they are used as.
\<close>

record 'm source =
  name :: string
  linkTarget :: "ref option"
  skeletons :: "'m jsobj"
  has_setVisible :: bool
  received :: "call list"

text \<open>Modelled from the spec: \<^verbatim>\<open>hasSkeleton(id)\<close> is consistent with the selection.\<close>

definition hasSkeleton :: "'m source \<Rightarrow> string \<Rightarrow> bool" where
  "hasSkeleton s skid = (js_get (skeletons s) skid \<noteq> None)"

text \<open>Modelled from the spec: the selected identifiers, and the mapping to their models.\<close>

definition source_getSelectedSkeletons :: "'m source \<Rightarrow> string list" where
  "source_getSelectedSkeletons s = js_keys (skeletons s)"

definition source_getSelectedSkeletonModels :: "'m source \<Rightarrow> 'm jsobj" where
  "source_getSelectedSkeletonModels s = skeletons s"

text \<open>Modelled from the spec: \<^verbatim>\<open>highlight(id)\<close> is a visual cue; it leaves the selection alone.\<close>

definition source_highlight :: "'m source \<Rightarrow> string \<Rightarrow> 'm source" where
  "source_highlight s skid = s\<lparr>received := received s @ [Highlight skid]\<rparr>"

text \<open>Modelled from the spec: \<^verbatim>\<open>removeSkeletons(ids)\<close> drops the identifiers it holds and
  ignores the others.\<close>

definition source_removeSkeletons :: "'m source \<Rightarrow> string list \<Rightarrow> 'm source" where
  "source_removeSkeletons s skids =
     s\<lparr>skeletons := foldl js_delete (skeletons s) skids,
       received := received s @ [RemoveSkeletons skids]\<rparr>"

text \<open>Modelled from the spec: \<^verbatim>\<open>setVisible(ids, visible)\<close>, where a provider has it.\<close>

definition source_setVisible :: "'m source \<Rightarrow> string list \<Rightarrow> bool \<Rightarrow> 'm source" where
  "source_setVisible s skids visible = s\<lparr>received := received s @ [SetVisible skids visible]\<rparr>"

text \<open>
  An \<^verbatim>\<open>option\<close> element made by \<^verbatim>\<open>new Option(text, value)\<close>, and a \<^verbatim>\<open>select\<close> element
  (a drop-down: no \<^verbatim>\<open>multiple\<close> attribute). \<open>selectedIndex\<close> is \<open>-1\<close> when no option is
  selected.
\<close>

record opt =
  opt_text :: string
  opt_value :: string

record select =
  id_attr :: string
  options :: "opt list"
  selectedIndex :: int

text \<open>
  The world: the own properties of the manager's table \<^verbatim>\<open>this.sources\<close>, the prototype of
  that table object when it is a provider (\<open>None\<close> stands for \<^verbatim>\<open>Object.prototype\<close>, as a
  fresh \<^verbatim>\<open>{}\<close> has it), the provider objects by reference, the store of model mappings by
  address, the \<^verbatim>\<open>select\<close> elements of the document in document order, the console and the
  notices shown by \<^verbatim>\<open>growlAlert\<close>.
\<close>

record 'm world =
  sources :: "ref jsobj"
  sources_proto :: "ref option"
  heap :: "ref \<Rightarrow> 'm source"
  objects :: "'m jsobj list"
  document :: "select list"
  console :: "string list"
  growl :: "(string \<times> string) list"

definition getName :: "'m world \<Rightarrow> ref \<Rightarrow> string" where
  "getName w source = name (heap w source)"

section \<open>The manager\<close>

text \<open>The constructor: \<^verbatim>\<open>this.sources = {}\<close>.\<close>

definition SkeletonSourceManager :: "'m world \<Rightarrow> 'm world" where
  "SkeletonSourceManager w = w\<lparr>sources := [], sources_proto := None\<rparr>"

text \<open>The constructor also subscribes the handler below to the event that a skeleton was
  deleted; see \<open>on_skeleton_deleted\<close> after \<open>removeSkeletons\<close>.\<close>

text \<open>
  \<^verbatim>\<open>this.sources[source.getName()] = source\<close>. Under the name \<^verbatim>\<open>__proto__\<close> the assignment
  reaches the accessor inherited from \<^verbatim>\<open>Object.prototype\<close>: it makes the provider the
  prototype of the table object and creates no own property, so \<^verbatim>\<open>Object.keys\<close> does not list
  that name. Only a table that already has an own property of that name, which no function
  here creates, is assigned to in the ordinary way.
\<close>

definition add :: "'m world \<Rightarrow> ref \<Rightarrow> 'm world" where
  "add w source =
     (if getName w source = ''__proto__'' \<and> js_get (sources w) ''__proto__'' = None
      then w\<lparr>sources_proto := Some source\<rparr>
      else w\<lparr>sources := js_set (sources w) (getName w source) source\<rparr>)"

text \<open>
  The three broadcasts and the scan of \<^verbatim>\<open>remove\<close> are written
  \<^verbatim>\<open>Object.keys(this.sources).forEach(function(name) { var source = this.sources[name]; ... }, this)\<close>:
  the keys are taken once, each source is looked up when its turn comes. The lookup cannot
  miss, since no body changes the table (lemma \<open>js_get_js_keys\<close>).
\<close>

definition forEach_source :: "(ref \<Rightarrow> 'm world \<Rightarrow> 'm world) \<Rightarrow> 'm world \<Rightarrow> 'm world" where
  "forEach_source body w =
     foldl (\<lambda>w name. case js_get (sources w) name of
                         None \<Rightarrow> w
                       | Some source \<Rightarrow> body source w)
       w (js_keys (sources w))"

text \<open>A method call on the provider object at a reference changes that object in place.\<close>

definition modify :: "ref \<Rightarrow> ('m source \<Rightarrow> 'm source) \<Rightarrow> 'm world \<Rightarrow> 'm world" where
  "modify r f w = w\<lparr>heap := (heap w)(r := f (heap w r))\<rparr>"

definition highlight :: "'m world \<Rightarrow> ref \<Rightarrow> string \<Rightarrow> 'm world" where
  "highlight w caller skeleton_id =
     forEach_source (\<lambda>source w.
         if source = caller then w
         else modify source (\<lambda>s. source_highlight s skeleton_id) w) w"

definition removeSkeletons :: "'m world \<Rightarrow> string list \<Rightarrow> 'm world" where
  "removeSkeletons w skeleton_ids =
     forEach_source (\<lambda>source w.
         modify source (\<lambda>s. source_removeSkeletons s skeleton_ids) w) w"

text \<open>The handler registered by the constructor:
  \<^verbatim>\<open>function(skeletonID) { this.removeSkeletons([skeletonID]); }\<close>.\<close>

definition on_skeleton_deleted :: "'m world \<Rightarrow> string \<Rightarrow> 'm world" where
  "on_skeleton_deleted w skeletonID = removeSkeletons w [skeletonID]"

definition setVisible :: "'m world \<Rightarrow> string list \<Rightarrow> bool \<Rightarrow> 'm world" where
  "setVisible w skeleton_ids visible =
     forEach_source (\<lambda>source w.
         if has_setVisible (heap w source)
         then modify source (\<lambda>s. source_setVisible s skeleton_ids visible) w
         else w) w"

subsection \<open>Strings\<close>

text \<open>\<^verbatim>\<open>s.replace(/a/g, b)\<close> for single characters \<open>a\<close> and \<open>b\<close>.\<close>

definition replace_all :: "char \<Rightarrow> char \<Rightarrow> string \<Rightarrow> string" where
  "replace_all a b s = map (\<lambda>c. if c = a then b else c) s"

text \<open>\<^verbatim>\<open>s.indexOf(pat)\<close>: the first position where \<open>pat\<close> occurs, \<open>-1\<close> if none.\<close>

fun indexOf_from :: "string \<Rightarrow> string \<Rightarrow> nat \<Rightarrow> int" where
  "indexOf_from [] pat i = (if pat = [] then int i else - 1)"
| "indexOf_from (c # cs) pat i =
     (if take (length pat) (c # cs) = pat then int i else indexOf_from cs pat (Suc i))"

definition indexOf :: "string \<Rightarrow> string \<Rightarrow> int" where
  "indexOf s pat = indexOf_from s pat 0"

text \<open>\<^verbatim>\<open>s.substring(a, b)\<close>: both ends are clamped to \<open>0 .. length\<close> and swapped when
  \<open>a > b\<close>; \<^verbatim>\<open>s.substring(a)\<close> runs to the end.\<close>

definition substring :: "string \<Rightarrow> int \<Rightarrow> int \<Rightarrow> string" where
  "substring s a b =
     (let n = int (length s);
          a' = max 0 (min a n);
          b' = max 0 (min b n)
      in take (nat (max a' b' - min a' b')) (drop (nat (min a' b')) s))"

definition substring_from :: "string \<Rightarrow> int \<Rightarrow> string" where
  "substring_from s a = substring s a (int (length s))"

subsection \<open>Select elements\<close>

text \<open>
  Platform behaviour (HTML standard, \<^verbatim>\<open>select\<close> without \<^verbatim>\<open>multiple\<close>, display size 1).
  When the list of options gains or loses an option and no option is selected, the first
  option, if any, becomes selected. Assigning \<^verbatim>\<open>selectedIndex\<close> selects the option at that
  index, if any, and no option otherwise. Assigning \<^verbatim>\<open>options.length\<close> removes the last
  options, or appends blank ones. \<^verbatim>\<open>options[i]\<close> is \<^verbatim>\<open>undefined\<close> out of range.
\<close>

definition new_Option :: "string \<Rightarrow> string \<Rightarrow> opt" where
  "new_Option t v = \<lparr>opt_text = t, opt_value = v\<rparr>"

definition reset_selectedness :: "select \<Rightarrow> select" where
  "reset_selectedness sel =
     (if selectedIndex sel = - 1 \<and> options sel \<noteq> [] then sel\<lparr>selectedIndex := 0\<rparr> else sel)"

definition options_add :: "select \<Rightarrow> opt \<Rightarrow> select" where
  "options_add sel option = reset_selectedness (sel\<lparr>options := options sel @ [option]\<rparr>)"

definition set_options_length :: "select \<Rightarrow> nat \<Rightarrow> select" where
  "set_options_length sel n =
     (if n < length (options sel)
      then reset_selectedness
             (sel\<lparr>options := take n (options sel),
                  selectedIndex := (if selectedIndex sel < int n then selectedIndex sel else - 1)\<rparr>)
      else if length (options sel) < n
      then reset_selectedness
             (sel\<lparr>options := options sel @ replicate (n - length (options sel)) (new_Option [] [])\<rparr>)
      else sel)"

definition set_selectedIndex :: "select \<Rightarrow> int \<Rightarrow> select" where
  "set_selectedIndex sel i =
     sel\<lparr>selectedIndex := (if 0 \<le> i \<and> i < int (length (options sel)) then i else - 1)\<rparr>"

definition option_at :: "opt list \<Rightarrow> int \<Rightarrow> opt option" where
  "option_at opts i = (if 0 \<le> i \<and> i < int (length opts) then Some (opts ! nat i) else None)"

text \<open>
  Platform behaviour (jQuery): \<^verbatim>\<open>$('#' + id).val()\<close> is \<^verbatim>\<open>undefined\<close> when no element has
  the id, \<^verbatim>\<open>null\<close> when the element has no selected option, and the value of the selected
  option otherwise. Used as a property key, \<^verbatim>\<open>undefined\<close> and \<^verbatim>\<open>null\<close> become the strings
  of those names. The id selector is taken to find the element by its id, which is so for
  the ids built from names of letters, digits, spaces and hyphens.
\<close>

datatype jsval = Undefined | Null | Str string

definition jq_val :: "select list \<Rightarrow> string \<Rightarrow> jsval" where
  "jq_val doc i =
     (case find (\<lambda>sel. id_attr sel = i) doc of
        None \<Rightarrow> Undefined
      | Some sel \<Rightarrow>
          (case option_at (options sel) (selectedIndex sel) of
             None \<Rightarrow> Null
           | Some option \<Rightarrow> Str (opt_value option)))"

fun to_property_key :: "jsval \<Rightarrow> string" where
  "to_property_key Undefined = ''undefined''"
| "to_property_key Null = ''null''"
| "to_property_key (Str s) = s"

subsection \<open>The select controls of the manager\<close>

text \<open>\<^verbatim>\<open>Object.keys(this.sources).sort().map(...)\<close>: the default sort compares strings by
  code unit.\<close>

definition createOptions :: "'m world \<Rightarrow> opt list" where
  "createOptions w = map (\<lambda>name. new_Option name name) (sort (js_keys (sources w)))"

definition createSelectID :: "'m world \<Rightarrow> ref \<Rightarrow> string" where
  "createSelectID w source =
     ''skeleton-source-select-'' @ replace_all CHR '' '' CHR ''-'' (getName w source)"

text \<open>The name that \<^verbatim>\<open>updateGUI\<close> reads back from the id of a select element.\<close>

definition select_name :: "string \<Rightarrow> string" where
  "select_name i =
     (let ipush = indexOf i ''-push-''
      in replace_all CHR ''-'' CHR '' ''
           (if - 1 = ipush then substring_from i 23 else substring i 23 ipush))"

datatype exn = TypeError

text \<open>
  The body of the \<^verbatim>\<open>each\<close> callback of \<^verbatim>\<open>updateGUI\<close> for one select element. Reading
  \<^verbatim>\<open>.value\<close> of \<^verbatim>\<open>select.options[selectedIndex]\<close> throws when the select has no option there;
  nothing has been changed at that point.
\<close>

definition updateGUI_select :: "'m world \<Rightarrow> select \<Rightarrow> exn + select" where
  "updateGUI_select w select =
     (let name = select_name (id_attr select);
          selectedIndex' = (if selectedIndex select = - 1 then 0 else selectedIndex select)
      in case option_at (options select) selectedIndex' of
           None \<Rightarrow> Inl TypeError
         | Some chosen \<Rightarrow>
            (case option_at (options select) 0 of
               None \<Rightarrow> Inl TypeError
             | Some first \<Rightarrow>
                (let selected = opt_value chosen;
                     select1 = set_options_length select (if opt_value first = ''None'' then 1 else 0);
                     select2 = set_selectedIndex select1 0
                 in Inr (foldl (\<lambda>sel option.
                              if opt_value option = name then sel
                              else (let sel' = options_add sel option
                                    in if opt_value option = selected
                                       then set_selectedIndex sel' (int (length (options sel')) - 1)
                                       else sel'))
                           select2 (createOptions w)))))"

text \<open>
  \<^verbatim>\<open>$("[id^='skeleton-source-select-']").each(...)\<close> over the select elements of the
  document: an exception thrown by the callback ends the iteration, the elements visited
  before stay rebuilt.
\<close>

fun updateGUI_each :: "'m world \<Rightarrow> select list \<Rightarrow> select list \<times> exn option" where
  "updateGUI_each w [] = ([], None)"
| "updateGUI_each w (sel # rest) =
     (if take 23 (id_attr sel) = ''skeleton-source-select-''
      then (case updateGUI_select w sel of
              Inl e \<Rightarrow> (sel # rest, Some e)
            | Inr sel' \<Rightarrow> (case updateGUI_each w rest of (rest', r) \<Rightarrow> (sel' # rest', r)))
      else (case updateGUI_each w rest of (rest', r) \<Rightarrow> (sel # rest', r)))"

text \<open>The functions that can throw return the world they leave and the exception, if any.\<close>

definition updateGUI :: "'m world \<Rightarrow> 'm world \<times> exn option" where
  "updateGUI w = (case updateGUI_each w (document w) of (doc, r) \<Rightarrow> (w\<lparr>document := doc\<rparr>, r))"

definition remove :: "'m world \<Rightarrow> ref \<Rightarrow> 'm world \<times> exn option" where
  "remove w source =
     (let w1 = w\<lparr>sources := js_delete (sources w) (getName w source)\<rparr>
      in case updateGUI w1 of
           (w2, Some e) \<Rightarrow> (w2, Some e)
         | (w2, None) \<Rightarrow>
             (forEach_source (\<lambda>s w.
                  if linkTarget (heap w s) = Some source
                  then modify s (\<lambda>x. x\<lparr>linkTarget := None\<rparr>) w
                  else w) w2, None))"

definition createSelect :: "'m world \<Rightarrow> ref \<Rightarrow> select" where
  "createSelect w source =
     (let select = \<lparr>id_attr = createSelectID w source, options = [], selectedIndex = - 1\<rparr>;
          name = getName w source
      in foldl (\<lambda>sel (i, option).
                  (let sel' = (if opt_value option \<noteq> name then options_add sel option else sel)
                   in if opt_value option = ''Active skeleton''
                      then set_selectedIndex sel' (int i) else sel'))
           select (enumerate 0 (createOptions w)))"

definition createPushSelect :: "'m world \<Rightarrow> ref \<Rightarrow> string \<Rightarrow> select" where
  "createPushSelect w source suffix =
     (let select = \<lparr>id_attr = createSelectID w source @ ''-push-'' @ suffix,
                     options = [], selectedIndex = - 1\<rparr>;
          select0 = options_add select (new_Option ''None'' ''None'');
          name = getName w source
      in foldl (\<lambda>sel option. if opt_value option \<noteq> name then options_add sel option else sel)
           select0 (createOptions w))"

subsection \<open>Resolving the chosen counterpart\<close>

definition getSelectedSource :: "'m world \<Rightarrow> ref \<Rightarrow> ref option" where
  "getSelectedSource w ref_source =
     js_get (sources w) (to_property_key (jq_val (document w) (createSelectID w ref_source)))"

definition getSelectedPushSource :: "'m world \<Rightarrow> ref \<Rightarrow> string \<Rightarrow> ref option" where
  "getSelectedPushSource w ref_source suffix =
     js_get (sources w)
       (to_property_key (jq_val (document w) (createSelectID w ref_source @ ''-push-'' @ suffix)))"

definition getSource :: "'m world \<Rightarrow> string \<Rightarrow> ref option" where
  "getSource w n = js_get (sources w) n"

definition getSelectedSkeletons :: "'m world \<Rightarrow> ref \<Rightarrow> 'm world \<times> string list" where
  "getSelectedSkeletons w ref_source =
     (case getSelectedSource w ref_source of
        None \<Rightarrow>
          (w\<lparr>console := console w @
                [''No source found for reference source '' @ getName w ref_source]\<rparr>, [])
      | Some source \<Rightarrow>
          (let skeletons = source_getSelectedSkeletons (heap w source)
           in (if 0 = length skeletons
               then w\<lparr>growl := growl w @
                      [(''Info'', ''No skeletons available at '' @ getName w source)]\<rparr>
               else w, skeletons)))"

text \<open>
  \<^verbatim>\<open>0 === models.length\<close> where \<open>models\<close> is a mapping from identifiers to model objects:
  \<^verbatim>\<open>models.length\<close> is \<^verbatim>\<open>undefined\<close>, or the model stored under the key \<^verbatim>\<open>length\<close>; neither
  is strictly equal to the number 0.
\<close>

definition length_is_0 :: "'m jsobj \<Rightarrow> bool" where
  "length_is_0 models = (case js_get models ''length'' of None \<Rightarrow> False | Some m \<Rightarrow> False)"

text \<open>When no source is found the function returns an empty array, which as a mapping has
  no key.\<close>

definition getSelectedSkeletonModels :: "'m world \<Rightarrow> ref \<Rightarrow> 'm world \<times> 'm jsobj" where
  "getSelectedSkeletonModels w ref_source =
     (case getSelectedSource w ref_source of
        None \<Rightarrow>
          (w\<lparr>console := console w @
                [''No source found for reference source '' @ getName w ref_source]\<rparr>, [])
      | Some source \<Rightarrow>
          (let models = source_getSelectedSkeletonModels (heap w source)
           in (if length_is_0 models
               then w\<lparr>growl := growl w @
                      [(''Info'', ''No skeletons selected at '' @ getName w source)]\<rparr>
               else w, models)))"

subsection \<open>Selection difference\<close>


subsection \<open>The invariant of the table\<close>

text \<open>The keys of the table are distinct and each is the name of the provider stored
  under it.\<close>

definition table_ok :: "'m world \<Rightarrow> bool" where
  "table_ok w =
     (distinct (map fst (sources w)) \<and> list_all (\<lambda>(n, q). getName w q = n) (sources w))"

text \<open>A provider is registered when the table holds it.\<close>

definition registered :: "'m world \<Rightarrow> ref \<Rightarrow> bool" where
  "registered w q = (q \<in> set (map snd (sources w)))"

subsection \<open>A small registry\<close>

text \<open>
  Providers \<open>A\<close> (selection 1, 2), \<open>B\<close> (selection 2, 3) and \<open>D\<close> (nothing selected)
  are registered; \<open>B\<close> links to \<open>A\<close>. Provider \<open>C\<close> exists but is not registered, and
  \<open>A\<close> links to it. Provider \<open>E\<close> is not registered either, has the name of \<open>A\<close>, and
  \<open>D\<close> links to it. The document holds the select of \<open>A\<close>, where \<open>D\<close> is chosen, and the
  select of \<open>B\<close>, where \<open>A\<close> is chosen.
\<close>

definition ex_A :: "unit source" where
  "ex_A = \<lparr>name = ''A'', linkTarget = Some 2, skeletons = [(''1'', ()), (''2'', ())],
           has_setVisible = True, received = []\<rparr>"

definition ex_B :: "unit source" where
  "ex_B = \<lparr>name = ''B'', linkTarget = Some 0, skeletons = [(''2'', ()), (''3'', ())],
           has_setVisible = False, received = []\<rparr>"

definition ex_C :: "unit source" where
  "ex_C = \<lparr>name = ''C'', linkTarget = Some 0, skeletons = [(''2'', ())],
           has_setVisible = True, received = []\<rparr>"

definition ex_D :: "unit source" where
  "ex_D = \<lparr>name = ''D'', linkTarget = Some 4, skeletons = [],
           has_setVisible = False, received = []\<rparr>"

definition ex_E :: "unit source" where
  "ex_E = \<lparr>name = ''A'', linkTarget = None, skeletons = [],
           has_setVisible = False, received = []\<rparr>"

text \<open>Two providers with other names: one has a hyphen, the other the word \<open>push\<close> between
  spaces.\<close>

definition ex_H :: "unit source" where
  "ex_H = \<lparr>name = ''a-b'', linkTarget = None, skeletons = [],
           has_setVisible = False, received = []\<rparr>"

definition ex_P :: "unit source" where
  "ex_P = \<lparr>name = ''A push B'', linkTarget = None, skeletons = [],
           has_setVisible = False, received = []\<rparr>"

text \<open>A provider whose name is \<^verbatim>\<open>__proto__\<close>.\<close>

definition ex_U :: "unit source" where
  "ex_U = \<lparr>name = ''__proto__'', linkTarget = None, skeletons = [],
           has_setVisible = False, received = []\<rparr>"

definition ex_heap :: "ref \<Rightarrow> unit source" where
  "ex_heap r =
     (if r = 0 then ex_A else if r = 1 then ex_B else if r = 3 then ex_D
      else if r = 4 then ex_E else if r = 5 then ex_P else if r = 6 then ex_H
      else if r = 7 then ex_U else ex_C)"

definition ex_document :: "select list" where
  "ex_document =
     [\<lparr>id_attr = ''skeleton-source-select-A'',
       options = [new_Option ''B'' ''B'', new_Option ''D'' ''D''], selectedIndex = 1\<rparr>,
      \<lparr>id_attr = ''skeleton-source-select-B'',
       options = [new_Option ''A'' ''A'', new_Option ''D'' ''D''], selectedIndex = 0\<rparr>]"

definition ex_world :: "unit world" where
  "ex_world =
     \<lparr>sources = [(''A'', 0), (''B'', 1), (''D'', 3)], sources_proto = None, heap = ex_heap,
      objects = [[(''1'', ()), (''2'', ()), (''3'', ())]],
      document = ex_document, console = [], growl = []\<rparr>"

text \<open>A registry of the providers \<open>a-b\<close> and \<open>B\<close>, made by the constructor and two
  \<^verbatim>\<open>add\<close> calls; the document holds the select that \<^verbatim>\<open>createSelect\<close> makes for \<open>a-b\<close>.\<close>

definition ex_hyphen_world :: "unit world" where
  "ex_hyphen_world =
     (let w = add (add (SkeletonSourceManager ex_world) 6) 1
      in w\<lparr>document := [createSelect w 6]\<rparr>)"

section \<open>Properties of the object model\<close>


lemma keys_js_set: "set (map fst (js_set obj k v)) = insert k (set (map fst obj))"
  by (induction obj k v rule: js_set.induct) (auto split: if_splits)

lemma distinct_js_set: "distinct (map fst obj) \<Longrightarrow> distinct (map fst (js_set obj k v))"
proof (induction obj)
  case Nil
  show ?case by simp
next
  case (Cons p ps)
  have "set (map fst (js_set ps k v)) = insert k (set (map fst ps))"
    by (rule keys_js_set)
  with Cons show ?case by (cases p) auto
qed

lemma js_get_delete: "js_get (js_delete obj k) k' = (if k' = k then None else js_get obj k')"
  by (induction obj) auto

lemma keys_js_delete: "set (map fst (js_delete obj k)) = set (map fst obj) - {k}"
  by (induction obj k rule: js_delete.induct) (auto split: if_splits)

lemma distinct_js_delete: "distinct (map fst obj) \<Longrightarrow> distinct (map fst (js_delete obj k))"
  by (induction obj) (auto simp: keys_js_delete simp del: set_map)

lemma js_delete_absent: "js_get obj k = None \<Longrightarrow> js_delete obj k = obj"
  by (induction obj) (auto split: if_splits)

lemma js_get_None_iff: "js_get obj k = None \<longleftrightarrow> k \<notin> set (map fst obj)"
  by (induction obj k rule: js_get.induct) (auto split: if_splits)

lemma js_get_in_set: "js_get obj k = Some v \<Longrightarrow> (k, v) \<in> set obj"
  by (induction obj) (auto split: if_splits)

lemma set_js_keys: "set (js_keys obj) = set (map fst obj)"
  by (auto simp: js_keys_def)

lemma distinct_js_keys: "distinct (map fst obj) \<Longrightarrow> distinct (js_keys obj)"
  by (auto simp: js_keys_def)

section \<open>Registration\<close>

lemma heap_add: "heap (add w p) = heap w"
  by (simp add: add_def)

lemma getName_add: "getName (add w p) q = getName w q"
  by (simp add: add_def getName_def)

lemma getName_foldl_add: "getName (foldl add w ps) q = getName w q"
  by (induction ps arbitrary: w) (simp_all add: getName_add)












section \<open>Broadcasts\<close>


lemma js_get_Some_iff: "distinct (map fst obj) \<Longrightarrow> js_get obj k = Some v \<longleftrightarrow> (k, v) \<in> set obj"
  by (induction obj) (force split: if_splits)+

lemma sources_modify: "sources (modify r f w) = sources w"
  by (simp add: modify_def)

lemma foldl_keys_modify:
  assumes "distinct ks"
    and "\<And>k k' s. k \<in> set ks \<Longrightarrow> k' \<in> set ks \<Longrightarrow> js_get (sources w) k = Some s \<Longrightarrow>
           js_get (sources w) k' = Some s \<Longrightarrow> k = k'"
  shows "foldl (\<lambda>w name. case js_get (sources w) name of
                             None \<Rightarrow> w
                           | Some s \<Rightarrow> modify s (g s) w) w ks =
         w\<lparr>heap := (\<lambda>q. if \<exists>k \<in> set ks. js_get (sources w) k = Some q
                         then g q (heap w q) else heap w q)\<rparr>"
  using assms
proof (induction ks arbitrary: w)
  case Nil
  show ?case by simp
next
  case (Cons k ks)
  let ?step = "\<lambda>w name. case js_get (sources w) name of
                             None \<Rightarrow> w
                           | Some s \<Rightarrow> modify s (g s) w"
  let ?w1 = "?step w k"
  have src: "sources ?w1 = sources w"
    by (simp add: sources_modify split: option.splits)
  have d: "distinct ks" and k: "k \<notin> set ks"
    using Cons.prems(1) by simp_all
  have inj: "\<And>a b s. a \<in> set ks \<Longrightarrow> b \<in> set ks \<Longrightarrow> js_get (sources ?w1) a = Some s \<Longrightarrow>
           js_get (sources ?w1) b = Some s \<Longrightarrow> a = b"
    using Cons.prems(2) src by simp
  have IH: "foldl ?step ?w1 ks =
         ?w1\<lparr>heap := (\<lambda>q. if \<exists>k \<in> set ks. js_get (sources ?w1) k = Some q
                         then g q (heap ?w1 q) else heap ?w1 q)\<rparr>"
    by (rule Cons.IH [OF d inj])
  show ?case
  proof (cases "js_get (sources w) k")
    case None
    then show ?thesis using IH by (auto simp: fun_eq_iff)
  next
    case (Some s)
    have nos: "\<not> (\<exists>k' \<in> set ks. js_get (sources w) k' = Some s)"
    proof
      assume "\<exists>k' \<in> set ks. js_get (sources w) k' = Some s"
      then obtain k' where "k' \<in> set ks" "js_get (sources w) k' = Some s" by blast
      then have "k' = k" using Cons.prems(2) [of k' k s] Some by simp
      with \<open>k' \<in> set ks\<close> k show False by simp
    qed
    have w1: "?w1 = modify s (g s) w" using Some by simp
    have "foldl ?step w (k # ks) = foldl ?step ?w1 ks" by simp
    also have "\<dots> = ?w1\<lparr>heap := (\<lambda>q. if \<exists>k \<in> set ks. js_get (sources ?w1) k = Some q
                         then g q (heap ?w1 q) else heap ?w1 q)\<rparr>" by (rule IH)
    also have "\<dots> = w\<lparr>heap := (\<lambda>q. if \<exists>k' \<in> set (k # ks). js_get (sources w) k' = Some q
                         then g q (heap w q) else heap w q)\<rparr>"
      unfolding w1 using nos Some by (auto simp: modify_def fun_eq_iff)
    finally show ?thesis .
  qed
qed

lemma table_ok_inj:
  assumes "table_ok w" "js_get (sources w) k = Some s" "js_get (sources w) k' = Some s"
  shows "k = k'"
proof -
  have "(k, s) \<in> set (sources w)" "(k', s) \<in> set (sources w)"
    using assms(2,3) by (auto dest: js_get_in_set)
  then have "getName w s = k" "getName w s = k'"
    using assms(1) by (auto simp: table_ok_def list_all_iff)
  then show ?thesis by simp
qed

lemma registered_iff:
  assumes "distinct (map fst (sources w))"
  shows "registered w q \<longleftrightarrow> (\<exists>k \<in> set (js_keys (sources w)). js_get (sources w) k = Some q)"
proof
  assume "registered w q"
  then obtain k where "(k, q) \<in> set (sources w)" by (auto simp: registered_def)
  then have "js_get (sources w) k = Some q" "k \<in> set (js_keys (sources w))"
    using assms by (auto simp: js_get_Some_iff set_js_keys rev_image_eqI)
  then show "\<exists>k \<in> set (js_keys (sources w)). js_get (sources w) k = Some q" by blast
next
  assume "\<exists>k \<in> set (js_keys (sources w)). js_get (sources w) k = Some q"
  then obtain k where "js_get (sources w) k = Some q" by blast
  then have "(k, q) \<in> set (sources w)" by (rule js_get_in_set)
  then show "registered w q" by (auto simp: registered_def rev_image_eqI)
qed

text \<open>Under the invariant, the registered providers are those that \<^verbatim>\<open>getSource\<close> finds under
  their own name.\<close>

lemma registered_getSource:
  assumes "table_ok w"
  shows "registered w q \<longleftrightarrow> getSource w (getName w q) = Some q"
proof
  assume "registered w q"
  then obtain k where k: "(k, q) \<in> set (sources w)" by (auto simp: registered_def)
  then have "getName w q = k" using assms by (auto simp: table_ok_def list_all_iff)
  moreover have "js_get (sources w) k = Some q"
    using assms k by (simp add: table_ok_def js_get_Some_iff)
  ultimately show "getSource w (getName w q) = Some q" by (simp add: getSource_def)
next
  assume "getSource w (getName w q) = Some q"
  then have "(getName w q, q) \<in> set (sources w)"
    by (simp add: getSource_def js_get_in_set)
  then show "registered w q" by (auto simp: registered_def rev_image_eqI)
qed

lemma forEach_source_modify:
  assumes "table_ok w"
  shows "forEach_source (\<lambda>s w. modify s (g s) w) w =
         w\<lparr>heap := (\<lambda>q. if registered w q then g q (heap w q) else heap w q)\<rparr>"
proof -
  have d: "distinct (map fst (sources w))" using assms by (simp add: table_ok_def)
  have "forEach_source (\<lambda>s w. modify s (g s) w) w =
        w\<lparr>heap := (\<lambda>q. if \<exists>k \<in> set (js_keys (sources w)). js_get (sources w) k = Some q
                         then g q (heap w q) else heap w q)\<rparr>"
    unfolding forEach_source_def
    by (rule foldl_keys_modify) (auto simp: distinct_js_keys d intro: table_ok_inj [OF assms])
  then show ?thesis by (simp add: registered_iff [OF d])
qed

lemmas ex_defs = ex_world_def ex_heap_def ex_A_def ex_B_def ex_C_def ex_D_def ex_E_def ex_H_def
  ex_P_def ex_U_def

lemma body_if_modify: "(if c then w else modify s f w) = modify s (\<lambda>x. if c then x else f x) w"
  by (simp add: modify_def)

lemma highlight_result:
  assumes "table_ok w"
  shows "highlight w caller skid =
           w\<lparr>heap := (\<lambda>q. if registered w q
                            then (if q = caller then heap w q else source_highlight (heap w q) skid)
                            else heap w q)\<rparr>"
proof -
  have "highlight w caller skid =
        forEach_source (\<lambda>s w. modify s (\<lambda>x. if s = caller then x else source_highlight x skid) w) w"
    by (simp add: highlight_def body_if_modify)
  also have "\<dots> = w\<lparr>heap := (\<lambda>q. if registered w q
                      then (if q = caller then heap w q else source_highlight (heap w q) skid)
                      else heap w q)\<rparr>"
    by (rule forEach_source_modify [OF assms])
  finally show ?thesis .
qed

text \<open>
  C5. In a table that satisfies its invariant, \<^verbatim>\<open>highlight(caller, id)\<close> calls
  \<^verbatim>\<open>highlight(id)\<close> exactly once on every registered provider other than the caller, and
  calls nothing on the caller or on a provider that is not registered: the caller's object
  is left as it was, whether it is registered or not.
\<close>

theorem highlight_all_but_caller:
  assumes "table_ok w"
  shows "heap (highlight w caller skid) q =
           (if registered w q \<and> q \<noteq> caller then source_highlight (heap w q) skid else heap w q) \<and>
         received (heap (highlight w caller skid) q) =
           received (heap w q) @ (if registered w q \<and> q \<noteq> caller then [Highlight skid] else [])"
  using highlight_result [OF assms, of caller skid] by (simp add: source_highlight_def)

theorem highlight_all_but_caller_witness:
  "table_ok ex_world \<and> registered ex_world 0 \<and> registered ex_world 1 \<and>
   received (heap (highlight ex_world 0 ''7'') 0) = [] \<and>
   received (heap (highlight ex_world 0 ''7'') 1) = [Highlight ''7''] \<and>
   received (heap (highlight ex_world 0 ''7'') 2) = []"
proof -
  have ok: "table_ok ex_world"
    by (simp add: table_ok_def getName_def ex_defs)
  have r: "registered ex_world 0" "registered ex_world 1" "\<not> registered ex_world 2"
    by (simp_all add: registered_def ex_defs)
  have e: "received (heap ex_world 0) = []" "received (heap ex_world 1) = []"
    "received (heap ex_world 2) = []"
    by (simp_all add: ex_defs)
  show ?thesis
    using ok r e highlight_all_but_caller [OF ok, of 0 "''7''" 0]
      highlight_all_but_caller [OF ok, of 0 "''7''" 1]
      highlight_all_but_caller [OF ok, of 0 "''7''" 2]
    by (simp add: source_highlight_def)
qed

lemma js_get_foldl_delete:
  "js_get (foldl js_delete obj ks) k = (if k \<in> set ks then None else js_get obj k)"
  by (induction ks arbitrary: obj) (auto simp: js_get_delete)

lemma removeSkeletons_result:
  assumes "table_ok w"
  shows "removeSkeletons w skids =
           w\<lparr>heap := (\<lambda>q. if registered w q then source_removeSkeletons (heap w q) skids
                            else heap w q)\<rparr>"
  unfolding removeSkeletons_def by (rule forEach_source_modify [OF assms])

text \<open>
  C4. In a table that satisfies its invariant, \<^verbatim>\<open>removeSkeletons(ids)\<close> calls
  \<^verbatim>\<open>removeSkeletons(ids)\<close> exactly once on every registered provider; the function takes no
  originator, so none is left out. With providers that honour the contract, afterwards no
  registered provider holds any of the identifiers.
\<close>

theorem removeSkeletons_reaches_all:
  assumes "table_ok w"
  shows "heap (removeSkeletons w skids) q =
           (if registered w q then source_removeSkeletons (heap w q) skids else heap w q) \<and>
         received (heap (removeSkeletons w skids) q) =
           received (heap w q) @ (if registered w q then [RemoveSkeletons skids] else []) \<and>
         (registered w q \<and> skid \<in> set skids \<longrightarrow> \<not> hasSkeleton (heap (removeSkeletons w skids) q) skid)"
  using removeSkeletons_result [OF assms, of skids]
  by (simp add: source_removeSkeletons_def hasSkeleton_def js_get_foldl_delete)

theorem removeSkeletons_reaches_all_witness:
  "table_ok ex_world \<and> registered ex_world 1 \<and> hasSkeleton (heap ex_world 1) ''2'' \<and>
   ''2'' \<in> set [''2'', ''9''] \<and>
   received (heap (removeSkeletons ex_world [''2'', ''9'']) 1) = [RemoveSkeletons [''2'', ''9'']] \<and>
   \<not> hasSkeleton (heap (removeSkeletons ex_world [''2'', ''9'']) 1) ''2'' \<and>
   heap (removeSkeletons ex_world [''2'', ''9'']) 2 = heap ex_world 2"
proof -
  have ok: "table_ok ex_world"
    by (simp add: table_ok_def getName_def ex_defs)
  have r: "registered ex_world 1" "\<not> registered ex_world 2"
    by (simp_all add: registered_def ex_defs)
  have h: "hasSkeleton (heap ex_world 1) ''2''"
    by (simp add: hasSkeleton_def ex_defs)
  have e: "received (heap ex_world 1) = []"
    by (simp add: ex_defs)
  show ?thesis
    using ok r h e
      removeSkeletons_reaches_all [OF ok, THEN conjunct2, of "[''2'', ''9'']" 1 "''2''"]
      removeSkeletons_reaches_all [OF ok, THEN conjunct1, of "[''2'', ''9'']" 2]
    by simp
qed

lemma setVisible_result:
  assumes "table_ok w"
  shows "setVisible w skids visible =
           w\<lparr>heap := (\<lambda>q. if registered w q
                            then (if has_setVisible (heap w q)
                                  then source_setVisible (heap w q) skids visible else heap w q)
                            else heap w q)\<rparr>"
proof -
  have "setVisible w skids visible =
        forEach_source (\<lambda>s w. modify s (\<lambda>x. if has_setVisible x
                                  then source_setVisible x skids visible else x) w) w"
    unfolding setVisible_def
    by (rule arg_cong [where f = "\<lambda>b. forEach_source b w"]) (simp add: modify_def fun_eq_iff)
  also have "\<dots> = w\<lparr>heap := (\<lambda>q. if registered w q
                      then (if has_setVisible (heap w q)
                            then source_setVisible (heap w q) skids visible else heap w q)
                      else heap w q)\<rparr>"
    by (rule forEach_source_modify [OF assms])
  finally show ?thesis .
qed

text \<open>
  C8. In a table that satisfies its invariant, \<^verbatim>\<open>setVisible(ids, visible)\<close> calls
  \<^verbatim>\<open>setVisible(ids, visible)\<close> exactly once on every registered provider that has the
  method and leaves every other provider untouched; the function has no failing branch.
\<close>

theorem setVisible_reaches_capable:
  assumes "table_ok w"
  shows "heap (setVisible w skids visible) q =
           (if registered w q \<and> has_setVisible (heap w q)
            then source_setVisible (heap w q) skids visible else heap w q) \<and>
         received (heap (setVisible w skids visible) q) =
           received (heap w q) @
           (if registered w q \<and> has_setVisible (heap w q) then [SetVisible skids visible] else [])"
  using setVisible_result [OF assms, of skids visible] by (simp add: source_setVisible_def)

theorem setVisible_reaches_capable_witness:
  "table_ok ex_world \<and>
   registered ex_world 0 \<and> has_setVisible (heap ex_world 0) \<and>
   registered ex_world 1 \<and> \<not> has_setVisible (heap ex_world 1) \<and>
   received (heap (setVisible ex_world [''2''] False) 0) = [SetVisible [''2''] False] \<and>
   received (heap (setVisible ex_world [''2''] False) 1) = [] \<and>
   received (heap (setVisible ex_world [''2''] False) 2) = []"
proof -
  have ok: "table_ok ex_world"
    by (simp add: table_ok_def getName_def ex_defs)
  have r: "registered ex_world 0" "registered ex_world 1" "\<not> registered ex_world 2"
    by (simp_all add: registered_def ex_defs)
  have e: "received (heap ex_world 0) = []" "received (heap ex_world 1) = []"
    "received (heap ex_world 2) = []"
    by (simp_all add: ex_defs)
  have c: "has_setVisible (heap ex_world 0)" "\<not> has_setVisible (heap ex_world 1)"
    by (simp_all add: ex_defs)
  show ?thesis
    using ok r e c setVisible_reaches_capable [OF ok, of "[''2'']" False 0]
      setVisible_reaches_capable [OF ok, of "[''2'']" False 1]
      setVisible_reaches_capable [OF ok, of "[''2'']" False 2]
    by (simp add: source_setVisible_def)
qed

section \<open>Removal\<close>

lemma updateGUI_frame:
  "sources (fst (updateGUI w)) = sources w \<and> heap (fst (updateGUI w)) = heap w \<and>
   objects (fst (updateGUI w)) = objects w \<and> console (fst (updateGUI w)) = console w \<and>
   growl (fst (updateGUI w)) = growl w"
  by (simp add: updateGUI_def split: prod.splits)

lemma foldl_clear_links:
  "foldl (\<lambda>w name. case js_get (sources w) name of
                       None \<Rightarrow> w
                     | Some s \<Rightarrow> (if linkTarget (heap w s) = Some p
                                  then modify s (\<lambda>x. x\<lparr>linkTarget := None\<rparr>) w else w)) w ks =
   w\<lparr>heap := (\<lambda>q. if linkTarget (heap w q) = Some p \<and> (\<exists>k \<in> set ks. js_get (sources w) k = Some q)
                   then (heap w q)\<lparr>linkTarget := None\<rparr> else heap w q)\<rparr>"
proof (induction ks arbitrary: w)
  case Nil
  show ?case by simp
next
  case (Cons k ks)
  let ?step = "\<lambda>w name. case js_get (sources w) name of
                       None \<Rightarrow> w
                     | Some s \<Rightarrow> (if linkTarget (heap w s) = Some p
                                  then modify s (\<lambda>x. x\<lparr>linkTarget := None\<rparr>) w else w)"
  let ?w1 = "?step w k"
  have src: "sources ?w1 = sources w"
    by (simp add: sources_modify split: option.splits)
  have IH: "foldl ?step ?w1 ks =
     ?w1\<lparr>heap := (\<lambda>q. if linkTarget (heap ?w1 q) = Some p \<and> (\<exists>k \<in> set ks. js_get (sources w) k = Some q)
                   then (heap ?w1 q)\<lparr>linkTarget := None\<rparr> else heap ?w1 q)\<rparr>"
    using Cons.IH [of ?w1] src by simp
  show ?case
  proof (cases "js_get (sources w) k")
    case None
    then show ?thesis using IH by (auto simp: fun_eq_iff)
  next
    case (Some s)
    show ?thesis
    proof (cases "linkTarget (heap w s) = Some p")
      case True
      have w1: "?w1 = modify s (\<lambda>x. x\<lparr>linkTarget := None\<rparr>) w" using Some True by simp
      have "foldl ?step w (k # ks) = foldl ?step ?w1 ks" by simp
      also note IH
      finally show ?thesis
        unfolding w1 using Some True by (auto simp: modify_def fun_eq_iff)
    next
      case False
      have w1: "?w1 = w" using Some False by simp
      have "foldl ?step w (k # ks) = foldl ?step ?w1 ks" by simp
      also note IH
      finally show ?thesis
        unfolding w1 using Some False by (auto simp: fun_eq_iff)
    qed
  qed
qed

lemma ex_key_iff: "(\<exists>k \<in> set (js_keys obj). js_get obj k = Some q) \<longleftrightarrow> (\<exists>k. js_get obj k = Some q)"
proof
  assume "\<exists>k. js_get obj k = Some q"
  then obtain k where k: "js_get obj k = Some q" by blast
  then have "k \<in> set (js_keys obj)"
    using js_get_None_iff [of obj k] by (simp add: set_js_keys del: set_map)
  with k show "\<exists>k \<in> set (js_keys obj). js_get obj k = Some q" by blast
qed blast

lemma remove_result:
  "remove w p =
     (let w1 = w\<lparr>sources := js_delete (sources w) (getName w p)\<rparr>
      in case updateGUI w1 of
           (w2, Some e) \<Rightarrow> (w2, Some e)
         | (w2, None) \<Rightarrow>
             (w2\<lparr>heap := (\<lambda>q. if linkTarget (heap w q) = Some p \<and> (\<exists>n. getSource w1 n = Some q)
                               then (heap w q)\<lparr>linkTarget := None\<rparr> else heap w q)\<rparr>, None))"
proof -
  let ?w1 = "w\<lparr>sources := js_delete (sources w) (getName w p)\<rparr>"
  obtain w2 r where u: "updateGUI ?w1 = (w2, r)" by (cases "updateGUI ?w1")
  have f: "sources w2 = sources ?w1" "heap w2 = heap w"
    using updateGUI_frame [of ?w1] u by simp_all
  show ?thesis
  proof (cases r)
    case (Some e)
    then show ?thesis using u by (simp add: remove_def)
  next
    case None
    then show ?thesis using u
      by (simp add: remove_def forEach_source_def foldl_clear_links ex_key_iff getSource_def f
          cong: if_cong)
  qed
qed

text \<open>
  C1. When \<^verbatim>\<open>remove(p)\<close> returns, no provider that the table still holds has \<open>p\<close> as
  its \<^verbatim>\<open>linkTarget\<close>; one that had \<open>p\<close> as its \<^verbatim>\<open>linkTarget\<close> before the call has none.
\<close>

theorem remove_clears_links:
  assumes "snd (remove w p) = None" and "getSource (fst (remove w p)) n = Some q"
  shows "linkTarget (heap (fst (remove w p)) q) \<noteq> Some p \<and>
         (linkTarget (heap w q) = Some p \<longrightarrow> linkTarget (heap (fst (remove w p)) q) = None)"
proof -
  let ?w1 = "w\<lparr>sources := js_delete (sources w) (getName w p)\<rparr>"
  obtain w2 r where u: "updateGUI ?w1 = (w2, r)" by (cases "updateGUI ?w1")
  have f: "sources w2 = sources ?w1"
    using updateGUI_frame [of ?w1] u by simp
  have r: "r = None" using assms(1) u by (simp add: remove_result split: option.splits)
  have w': "fst (remove w p) =
      w2\<lparr>heap := (\<lambda>q. if linkTarget (heap w q) = Some p \<and> (\<exists>n. getSource ?w1 n = Some q)
                               then (heap w q)\<lparr>linkTarget := None\<rparr> else heap w q)\<rparr>"
    using u r by (simp add: remove_result)
  have "getSource ?w1 n = Some q"
    using assms(2) f unfolding w' by (simp add: getSource_def)
  then have "\<exists>n. getSource ?w1 n = Some q" by blast
  then show ?thesis unfolding w' by simp
qed

theorem remove_clears_links_witness:
  "snd (remove ex_world 0) = None \<and> getSource (fst (remove ex_world 0)) ''B'' = Some 1 \<and>
   linkTarget (heap ex_world 1) = Some 0 \<and> linkTarget (heap (fst (remove ex_world 0)) 1) = None"
proof -
  have a: "snd (remove ex_world 0) = None"
    by code_simp
  have b: "getSource (fst (remove ex_world 0)) ''B'' = Some 1"
    by code_simp
  have c: "linkTarget (heap ex_world 1) = Some 0"
    by code_simp
  show ?thesis using a b c remove_clears_links [OF a b] by simp
qed

lemma id_attr_options_add: "id_attr (options_add sel x) = id_attr sel"
  by (simp add: options_add_def reset_selectedness_def)

lemma id_attr_set_selectedIndex: "id_attr (set_selectedIndex sel i) = id_attr sel"
  by (simp add: set_selectedIndex_def)

lemma id_attr_set_options_length: "id_attr (set_options_length sel n) = id_attr sel"
  by (simp add: set_options_length_def reset_selectedness_def)

lemma id_attr_rebuild:
  "id_attr (foldl (\<lambda>sel option.
                      if opt_value option = nm then sel
                      else (let sel' = options_add sel option
                            in if opt_value option = selected
                               then set_selectedIndex sel' (int (length (options sel')) - 1)
                               else sel')) sel opts) = id_attr sel"
  by (induction opts arbitrary: sel)
     (simp_all add: Let_def id_attr_options_add id_attr_set_selectedIndex)

lemma id_attr_updateGUI_select:
  "updateGUI_select w sel = Inr sel' \<Longrightarrow> id_attr sel' = id_attr sel"
  by (auto simp: updateGUI_select_def Let_def id_attr_rebuild id_attr_set_selectedIndex
        id_attr_set_options_length split: option.splits)

lemma ids_updateGUI_each: "map id_attr (fst (updateGUI_each w doc)) = map id_attr doc"
  by (induction doc) (auto simp: id_attr_updateGUI_select split: sum.splits prod.splits)

lemma ids_updateGUI: "map id_attr (document (fst (updateGUI w))) = map id_attr (document w)"
proof (cases "updateGUI_each w (document w)")
  case (Pair doc r)
  then show ?thesis
    using ids_updateGUI_each [of w "document w"] by (simp add: updateGUI_def)
qed

text \<open>
  C7, as amended. When the name of \<open>p\<close> is not a key of the table, \<^verbatim>\<open>remove(p)\<close> leaves
  the table unchanged and rebuilds the select controls of the document as \<^verbatim>\<open>updateGUI\<close> does
  on that table, keeping their ids; console, notices and model mappings are untouched. When
  it returns, it has cleared the \<^verbatim>\<open>linkTarget\<close> of the registered providers that referred to
  \<open>p\<close> and changed no other provider.
\<close>

theorem remove_unregistered_name:
  assumes "getSource w (getName w p) = None"
  shows "sources (fst (remove w p)) = sources w \<and>
         document (fst (remove w p)) = document (fst (updateGUI w)) \<and>
         map id_attr (document (fst (remove w p))) = map id_attr (document w) \<and>
         objects (fst (remove w p)) = objects w \<and>
         console (fst (remove w p)) = console w \<and>
         growl (fst (remove w p)) = growl w \<and>
         (snd (remove w p) = None \<longrightarrow>
            heap (fst (remove w p)) q =
              (if linkTarget (heap w q) = Some p \<and> (\<exists>n. getSource w n = Some q)
               then (heap w q)\<lparr>linkTarget := None\<rparr> else heap w q))"
proof -
  have "js_delete (sources w) (getName w p) = sources w"
    using assms by (simp add: getSource_def js_delete_absent)
  then have w1: "w\<lparr>sources := js_delete (sources w) (getName w p)\<rparr> = w" by simp
  obtain w2 r where u: "updateGUI w = (w2, r)" by (cases "updateGUI w")
  have f: "sources w2 = sources w" "objects w2 = objects w" "console w2 = console w"
    "growl w2 = growl w"
    using updateGUI_frame [of w] u by simp_all
  have i: "map id_attr (document w2) = map id_attr (document w)"
    using ids_updateGUI [of w] u by simp
  show ?thesis
    using u f i by (cases r) (simp_all add: remove_result w1)
qed

theorem remove_unregistered_name_witness:
  "getSource ex_world (getName ex_world 2) = None \<and>
   snd (remove ex_world 2) = None \<and>
   sources (fst (remove ex_world 2)) = sources ex_world \<and>
   linkTarget (heap ex_world 0) = Some 2 \<and>
   heap (fst (remove ex_world 2)) 0 = (heap ex_world 0)\<lparr>linkTarget := None\<rparr> \<and>
   heap (fst (remove ex_world 2)) 1 = heap ex_world 1"
proof -
  have a: "getSource ex_world (getName ex_world 2) = None" by code_simp
  have b: "snd (remove ex_world 2) = None" by code_simp
  have c: "linkTarget (heap ex_world 0) = Some 2" "linkTarget (heap ex_world 1) \<noteq> Some 2"
    by code_simp+
  have d: "getSource ex_world ''A'' = Some 0" by code_simp
  then have e: "\<exists>n. getSource ex_world n = Some 0" by blast
  show ?thesis
    using a b c e remove_unregistered_name [OF a, of 0] remove_unregistered_name [OF a, of 1]
    by simp
qed

text \<open>
  C7 as stated fails. Provider \<open>E\<close> is not registered; \<^verbatim>\<open>remove(E)\<close> returns, and it has
  deleted the entry of \<open>A\<close>, which has the same name, cleared the \<^verbatim>\<open>linkTarget\<close> of the
  registered provider \<open>D\<close>, and changed the select controls.
\<close>

theorem remove_unregistered_counterexample:
  "\<not> registered ex_world 4 \<and>
   snd (remove ex_world 4) = None \<and>
   getSource ex_world ''A'' = Some 0 \<and>
   getSource (fst (remove ex_world 4)) ''A'' = None \<and>
   registered (fst (remove ex_world 4)) 3 \<and>
   linkTarget (heap ex_world 3) = Some 4 \<and>
   linkTarget (heap (fst (remove ex_world 4)) 3) = None \<and>
   document (fst (remove ex_world 4)) \<noteq> document ex_world"
  by code_simp

section \<open>Selection difference\<close>






section \<open>The name read back from the id of a select\<close>

lemma indexOf_from_bound:
  "indexOf_from s pat j \<noteq> - 1 \<Longrightarrow>
     int j \<le> indexOf_from s pat j \<and> indexOf_from s pat j + int (length pat) \<le> int j + int (length s)"
proof (induction s pat j rule: indexOf_from.induct)
  case (1 pat i)
  then show ?case by (auto split: if_splits)
next
  case (2 c cs pat i)
  show ?case
  proof (cases "take (length pat) (c # cs) = pat")
    case True
    then have "length (take (length pat) (c # cs)) = length pat" by simp
    then have "length pat \<le> length (c # cs)" by simp
    with True show ?thesis by simp
  next
    case False
    with 2 show ?thesis by auto
  qed
qed

lemma indexOf_prefixed:
  "indexOf (''skeleton-source-select-'' @ e) ''-push-'' =
     (if take 5 e = ''push-'' then 22 else indexOf_from e ''-push-'' 23)"
  by (simp add: indexOf_def eval_nat_numeral)

lemma length_substring:
  "0 \<le> a \<Longrightarrow> a \<le> int (length s) \<Longrightarrow> 0 \<le> b \<Longrightarrow> b \<le> int (length s) \<Longrightarrow>
   length (substring s a b) = nat \<bar>a - b\<bar>"
  by (auto simp: substring_def Let_def min_def max_def)

lemma substring_from_prefix:
  "length p = n \<Longrightarrow> substring_from (p @ e) (int n) = e"
  by (auto simp: substring_from_def substring_def Let_def min_def max_def)

lemma replace_all_round:
  "replace_all CHR ''-'' CHR '' '' (replace_all CHR '' '' CHR ''-'' n) = n \<longleftrightarrow> CHR ''-'' \<notin> set n"
  by (induction n) (auto simp: replace_all_def)

text \<open>
  C10, as amended. The name that \<^verbatim>\<open>updateGUI\<close> reads back from the id that
  \<^verbatim>\<open>createSelectID\<close> builds is the name of the provider exactly when the name has no hyphen
  and the id does not contain \<^verbatim>\<open>-push-\<close>.
\<close>

theorem select_name_round_trip:
  "select_name (createSelectID w p) = getName w p \<longleftrightarrow>
     CHR ''-'' \<notin> set (getName w p) \<and> indexOf (createSelectID w p) ''-push-'' = - 1"
proof -
  define n where "n = getName w p"
  define e where "e = replace_all CHR '' '' CHR ''-'' n"
  define i where "i = ''skeleton-source-select-'' @ e"
  define r where "r = indexOf i ''-push-''"
  have i: "createSelectID w p = i" by (simp add: createSelectID_def i_def e_def n_def)
  have le: "length e = length n" by (simp add: replace_all_def e_def)
  have li: "int (length i) = 23 + int (length n)" by (simp add: i_def le)
  have rp: "r = (if take 5 e = ''push-'' then 22 else indexOf_from e ''-push-'' 23)"
    unfolding r_def i_def by (rule indexOf_prefixed)
  have sn: "select_name i =
      replace_all CHR ''-'' CHR '' '' (if - 1 = r then substring_from i 23 else substring i 23 r)"
    by (simp only: select_name_def Let_def r_def)
  have goal: "select_name i = n \<longleftrightarrow> CHR ''-'' \<notin> set n \<and> r = - 1"
  proof (cases "r = - 1")
    case True
    have "substring_from i 23 = e"
      unfolding i_def by (rule substring_from_prefix [where n = 23, simplified]) simp
    then have "select_name i = replace_all CHR ''-'' CHR '' '' e"
      using True sn by simp
    then show ?thesis using True by (simp add: e_def replace_all_round)
  next
    case False
    have r: "22 \<le> r \<and> r + 6 \<le> 23 + int (length n)"
    proof (cases "take 5 e = ''push-''")
      case True
      then have "length (take 5 e) = 5" by simp
      then have "5 \<le> length e" by simp
      then show ?thesis using True le rp by simp
    next
      case f: False
      then have "indexOf_from e ''-push-'' 23 \<noteq> - 1"
        using False rp by simp
      from indexOf_from_bound [OF this] f le rp show ?thesis by simp
    qed
    have "length (substring i 23 r) = nat \<bar>23 - r\<bar>"
      using r li by (intro length_substring) simp_all
    then have "length (select_name i) = nat \<bar>23 - r\<bar>"
      using False sn by (simp add: replace_all_def)
    then have "length (select_name i) < length n"
      using r by linarith
    then have "select_name i \<noteq> n" by auto
    then show ?thesis using False by simp
  qed
  show ?thesis using goal unfolding i r_def n_def by simp
qed

theorem select_name_round_trip_witness:
  "CHR ''-'' \<notin> set (getName ex_world 0) \<and>
   indexOf (createSelectID ex_world 0) ''-push-'' = - 1 \<and>
   select_name (createSelectID ex_world 0) = getName ex_world 0 \<and>
   CHR ''-'' \<in> set (getName ex_world 6) \<and>
   select_name (createSelectID ex_world 6) \<noteq> getName ex_world 6 \<and>
   select_name (createSelectID ex_world 6) = ''a b''"
proof -
  have a: "CHR ''-'' \<notin> set (getName ex_world 0)" by code_simp
  have b: "indexOf (createSelectID ex_world 0) ''-push-'' = - 1" by code_simp
  have c: "CHR ''-'' \<in> set (getName ex_world 6)" by code_simp
  have d: "select_name (createSelectID ex_world 6) = ''a b''" by code_simp
  have e: "select_name (createSelectID ex_world 6) \<noteq> getName ex_world 6"
    using c select_name_round_trip [of ex_world 6] by simp
  have f: "select_name (createSelectID ex_world 0) = getName ex_world 0"
    using a b select_name_round_trip [of ex_world 0] by simp
  from a b c d e f show ?thesis by blast
qed

text \<open>
  C10 as stated fails. The name \<open>A push B\<close> has no hyphen, and the name read back from the
  id of its select is \<open>A\<close>.
\<close>

theorem select_name_round_trip_counterexample:
  "registered (add ex_world 5) 5 \<and>
   getName (add ex_world 5) 5 = ''A push B'' \<and>
   CHR ''-'' \<notin> set (getName (add ex_world 5) 5) \<and>
   createSelectID (add ex_world 5) 5 = ''skeleton-source-select-A-push-B'' \<and>
   select_name (createSelectID (add ex_world 5) 5) = ''A'' \<and>
   select_name (createSelectID (add ex_world 5) 5) \<noteq> getName (add ex_world 5) 5"
  by code_simp

section \<open>Resolving the chosen counterpart\<close>

lemma getSelectedSkeletons_unresolved:
  "getSelectedSource w r = None \<Longrightarrow>
   getSelectedSkeletons w r =
     (w\<lparr>console := console w @ [''No source found for reference source '' @ getName w r]\<rparr>, [])"
  by (simp add: getSelectedSkeletons_def)

lemma getSelectedSkeletonModels_unresolved:
  "getSelectedSource w r = None \<Longrightarrow>
   getSelectedSkeletonModels w r =
     (w\<lparr>console := console w @ [''No source found for reference source '' @ getName w r]\<rparr>, [])"
  by (simp add: getSelectedSkeletonModels_def)

lemma getSelectedSkeletons_empty:
  "getSelectedSource w r = Some s \<Longrightarrow> source_getSelectedSkeletons (heap w s) = [] \<Longrightarrow>
   getSelectedSkeletons w r =
     (w\<lparr>growl := growl w @ [(''Info'', ''No skeletons available at '' @ getName w s)]\<rparr>, [])"
  by (simp add: getSelectedSkeletons_def)

lemma getSelectedSkeletonModels_resolved:
  "getSelectedSource w r = Some s \<Longrightarrow>
   getSelectedSkeletonModels w r = (w, source_getSelectedSkeletonModels (heap w s))"
  by (simp add: getSelectedSkeletonModels_def length_is_0_def Let_def split: option.split)

text \<open>
  C6. In the small registry the select of \<open>A\<close> has \<open>D\<close> chosen, and \<open>D\<close> has nothing
  selected. \<^verbatim>\<open>getSelectedSkeletonModels(A)\<close> returns the empty mapping and shows no notice,
  while \<^verbatim>\<open>getSelectedSkeletons(A)\<close> returns the empty list and shows one: the test
  \<^verbatim>\<open>0 === models.length\<close> is never true of a mapping
  (lemma \<open>getSelectedSkeletonModels_resolved\<close>).
\<close>

theorem getSelectedSkeletonModels_silent_on_empty:
  "getSelectedSource ex_world 0 = Some 3 \<and>
   source_getSelectedSkeletonModels (heap ex_world 3) = [] \<and>
   snd (getSelectedSkeletonModels ex_world 0) = [] \<and>
   growl (fst (getSelectedSkeletonModels ex_world 0)) = [] \<and>
   console (fst (getSelectedSkeletonModels ex_world 0)) = [] \<and>
   snd (getSelectedSkeletons ex_world 0) = [] \<and>
   growl (fst (getSelectedSkeletons ex_world 0)) = [(''Info'', ''No skeletons available at D'')]"
  by code_simp

section \<open>The options offered\<close>

lemma createOptions_values: "map opt_value (createOptions w) = sort (js_keys (sources w))"
  by (simp add: createOptions_def new_Option_def comp_def)

lemma createOptions_sorted:
  "sorted (map opt_value (createOptions w)) \<and>
   set (map opt_value (createOptions w)) = set (map fst (sources w))"
  by (simp add: createOptions_values set_js_keys del: set_map)

lemma options_options_add: "options (options_add sel x) = options sel @ [x]"
  by (simp add: options_add_def reset_selectedness_def)

lemma options_set_selectedIndex: "options (set_selectedIndex sel i) = options sel"
  by (simp add: set_selectedIndex_def)

lemma createSelect_fold:
  "options (foldl (\<lambda>sel (i, option).
                  (let sel' = (if opt_value option \<noteq> nm then options_add sel option else sel)
                   in if opt_value option = ''Active skeleton''
                      then set_selectedIndex sel' (int i) else sel'))
           sel (enumerate k opts)) =
   options sel @ filter (\<lambda>x. opt_value x \<noteq> nm) opts"
  by (induction opts arbitrary: sel k)
     (simp_all add: Let_def options_options_add options_set_selectedIndex)

lemma createSelect_options:
  "options (createSelect w p) = filter (\<lambda>x. opt_value x \<noteq> getName w p) (createOptions w)"
proof -
  have "createSelect w p =
      foldl (\<lambda>sel (i, option).
                  (let sel' = (if opt_value option \<noteq> getName w p then options_add sel option else sel)
                   in if opt_value option = ''Active skeleton''
                      then set_selectedIndex sel' (int i) else sel'))
           \<lparr>id_attr = createSelectID w p, options = [], selectedIndex = - 1\<rparr>
           (enumerate 0 (createOptions w))"
    by (simp add: createSelect_def)
  then show ?thesis by (simp only: createSelect_fold) simp
qed

lemma createSelect_excludes_own_name:
  "getName w p \<notin> set (map opt_value (options (createSelect w p)))"
  by (auto simp: createSelect_options)

lemma createPushSelect_fold:
  "options (foldl (\<lambda>sel option. if opt_value option \<noteq> nm then options_add sel option else sel)
           sel opts) =
   options sel @ filter (\<lambda>x. opt_value x \<noteq> nm) opts"
  by (induction opts arbitrary: sel) (simp_all add: options_options_add)

lemma createPushSelect_options:
  "options (createPushSelect w p suffix) =
     new_Option ''None'' ''None'' # filter (\<lambda>x. opt_value x \<noteq> getName w p) (createOptions w)"
proof -
  have "createPushSelect w p suffix =
      foldl (\<lambda>sel option. if opt_value option \<noteq> getName w p then options_add sel option else sel)
        (options_add \<lparr>id_attr = createSelectID w p @ ''-push-'' @ suffix,
                       options = [], selectedIndex = - 1\<rparr> (new_Option ''None'' ''None''))
        (createOptions w)"
    by (simp add: createPushSelect_def)
  then show ?thesis by (simp only: createPushSelect_fold options_options_add) simp
qed

lemma updateGUI_fold:
  "options (foldl (\<lambda>sel option.
                      if opt_value option = nm then sel
                      else (let sel' = options_add sel option
                            in if opt_value option = selected
                               then set_selectedIndex sel' (int (length (options sel')) - 1)
                               else sel')) sel opts) =
   options sel @ filter (\<lambda>x. opt_value x \<noteq> nm) opts"
  by (induction opts arbitrary: sel)
     (simp_all add: Let_def options_options_add options_set_selectedIndex)

lemma options_set_options_length_le:
  "n \<le> length (options sel) \<Longrightarrow> options (set_options_length sel n) = take n (options sel)"
  by (simp add: set_options_length_def reset_selectedness_def)

lemma updateGUI_select_options:
  assumes "updateGUI_select w sel = Inr sel'"
  shows "options sel' =
           (if opt_value (hd (options sel)) = ''None'' then [hd (options sel)] else []) @
           filter (\<lambda>x. opt_value x \<noteq> select_name (id_attr sel)) (createOptions w)"
proof -
  from assms obtain first where f: "option_at (options sel) 0 = Some first"
    by (auto simp: updateGUI_select_def Let_def split: option.splits)
  then have ne: "options sel \<noteq> []" and h: "first = hd (options sel)"
    by (auto simp: option_at_def hd_conv_nth split: if_splits)
  then have l: "1 \<le> length (options sel)" by (cases "options sel") simp_all
  have t: "take 1 (options sel) = [hd (options sel)]"
    using ne by (cases "options sel") simp_all
  show ?thesis
    using assms f h l t
    by (auto simp: updateGUI_select_def Let_def updateGUI_fold options_set_selectedIndex
          options_set_options_length_le split: option.splits)
qed

text \<open>
  C9. The options are the registered names in sorted order (lemma \<open>createOptions_sorted\<close>),
  and \<^verbatim>\<open>createSelect\<close> leaves the provider's own name out
  (lemma \<open>createSelect_excludes_own_name\<close>). The rebuild leaves out the name it reads back
  from the id of the select (lemma \<open>updateGUI_select_options\<close>): in the registry of \<open>a-b\<close>
  and \<open>B\<close>, after \<^verbatim>\<open>remove(B)\<close> the select of \<open>a-b\<close> offers \<open>a-b\<close>.
\<close>

theorem updateGUI_offers_own_name:
  "getName ex_hyphen_world 6 = ''a-b'' \<and>
   getSource ex_hyphen_world ''a-b'' = Some 6 \<and>
   map id_attr (document ex_hyphen_world) = [createSelectID ex_hyphen_world 6] \<and>
   map (\<lambda>s. map opt_value (options s)) (document ex_hyphen_world) = [[''B'']] \<and>
   snd (remove ex_hyphen_world 1) = None \<and>
   map id_attr (document (fst (remove ex_hyphen_world 1))) = [createSelectID ex_hyphen_world 6] \<and>
   map (\<lambda>s. map opt_value (options s)) (document (fst (remove ex_hyphen_world 1))) = [[''a-b'']]"
  by code_simp

section \<open>The invariant of the table\<close>

lemma set_js_set: "set (js_set obj k v) \<subseteq> insert (k, v) (set obj)"
  by (induction obj k v rule: js_set.induct) (auto split: if_splits)

lemma set_js_delete: "set (js_delete obj k) \<subseteq> set obj"
  by (induction obj k rule: js_delete.induct) (auto split: if_splits)

lemma table_ok_init: "table_ok (SkeletonSourceManager w)"
  by (simp add: table_ok_def SkeletonSourceManager_def)

lemma table_ok_add: "table_ok w \<Longrightarrow> table_ok (add w p)"
  using set_js_set [of "sources w" "getName w p" p]
  by (auto simp: table_ok_def add_def distinct_js_set getName_def list_all_iff)

lemma table_ok_highlight: "table_ok w \<Longrightarrow> table_ok (highlight w caller skid)"
  by (auto simp: highlight_result table_ok_def getName_def source_highlight_def list_all_iff)

lemma table_ok_removeSkeletons: "table_ok w \<Longrightarrow> table_ok (removeSkeletons w skids)"
  by (auto simp: removeSkeletons_result table_ok_def getName_def source_removeSkeletons_def
        list_all_iff)

lemma table_ok_setVisible: "table_ok w \<Longrightarrow> table_ok (setVisible w skids visible)"
  by (auto simp: setVisible_result table_ok_def getName_def source_setVisible_def list_all_iff)

lemma table_ok_remove: "table_ok w \<Longrightarrow> table_ok (fst (remove w p))"
proof -
  assume ok: "table_ok w"
  let ?w1 = "w\<lparr>sources := js_delete (sources w) (getName w p)\<rparr>"
  obtain w2 r where u: "updateGUI ?w1 = (w2, r)" by (cases "updateGUI ?w1")
  have f: "sources w2 = sources ?w1" "heap w2 = heap w"
    using updateGUI_frame [of ?w1] u by simp_all
  have "table_ok w2"
    using ok f set_js_delete [of "sources w" "getName w p"]
    by (auto simp: table_ok_def distinct_js_delete getName_def list_all_iff)
  then show ?thesis
    using u f by (cases r) (auto simp: remove_result table_ok_def getName_def list_all_iff)
qed

section \<open>When the rebuild throws\<close>

text \<open>
  In the small registry, after \<^verbatim>\<open>remove(D)\<close> and \<^verbatim>\<open>remove(B)\<close> the select of \<open>A\<close> has no
  option left. Every later \<^verbatim>\<open>remove\<close> then throws in \<^verbatim>\<open>updateGUI\<close>, before the scan of the
  links: \<^verbatim>\<open>remove(B)\<close> a second time throws, and \<^verbatim>\<open>remove(C)\<close> throws and leaves the link
  from \<open>A\<close> to \<open>C\<close> in place.
\<close>

lemma remove_again_throws:
  "snd (remove ex_world 3) = None \<and>
   snd (remove (fst (remove ex_world 3)) 1) = None \<and>
   snd (remove (fst (remove (fst (remove ex_world 3)) 1)) 1) = Some TypeError"
  by code_simp

lemma remove_throws_keeps_link:
  "snd (remove (fst (remove (fst (remove ex_world 3)) 1)) 2) = Some TypeError \<and>
   getSource (fst (remove (fst (remove (fst (remove ex_world 3)) 1)) 2)) ''A'' = Some 0 \<and>
   linkTarget (heap (fst (remove (fst (remove (fst (remove ex_world 3)) 1)) 2)) 0) = Some 2"
  by code_simp

lemma js_keys_order:
  "js_keys [(''b'', 1::nat), (''10'', 2), (''9'', 3), (''01'', 4), (''4294967295'', 5),
            (''4294967294'', 6), (''0'', 7)] =
   [''0'', ''9'', ''10'', ''4294967294'', ''b'', ''01'', ''4294967295'']"
  by code_simp

section \<open>The prototype of the table\<close>

text \<open>Only \<^verbatim>\<open>add\<close> under the name \<^verbatim>\<open>__proto__\<close> changes the prototype of the table object:
  \<^verbatim>\<open>remove\<close> deletes own properties only, and the broadcasts write to providers.\<close>

lemma sources_proto_updateGUI: "sources_proto (fst (updateGUI w)) = sources_proto w"
  by (simp add: updateGUI_def split: prod.splits)

lemma sources_proto_remove: "sources_proto (fst (remove w p)) = sources_proto w"
proof -
  let ?w1 = "w\<lparr>sources := js_delete (sources w) (getName w p)\<rparr>"
  obtain w2 r where u: "updateGUI ?w1 = (w2, r)" by (cases "updateGUI ?w1")
  have "sources_proto w2 = sources_proto w"
    using sources_proto_updateGUI [of ?w1] u by simp
  then show ?thesis using u by (cases r) (simp_all add: remove_result)
qed

lemma sources_proto_broadcasts:
  assumes "table_ok w"
  shows "sources_proto (highlight w caller skid) = sources_proto w"
    and "sources_proto (removeSkeletons w skids) = sources_proto w"
    and "sources_proto (setVisible w skids visible) = sources_proto w"
  by (simp_all add: highlight_result [OF assms] removeSkeletons_result [OF assms]
        setVisible_result [OF assms])

end
